theory Spec2Isabelle
  imports Complex_Main "HOL-Library.AList" "HOL-Library.Word"
begin

section \<open>Python values used by \<^verbatim>\<open>http_smuggle.py\<close>\<close>

text \<open>
  A Python \<^verbatim>\<open>str\<close> is a sequence of Unicode code points and a \<^verbatim>\<open>bytes\<close> object a
  sequence of octets. String literals of the source are ASCII; \<open>ascii\<close> turns an
  Isabelle string literal into the text it denotes. Carriage return and line feed have
  no literal syntax and are written as the code points 13 and 10.
\<close>

type_synonym codepoint = nat
type_synonym str = "codepoint list"
type_synonym byte = "8 word"

definition ascii :: "string \<Rightarrow> str" where
  "ascii s = map of_char s"

definition crlf :: str where
  "crlf = [13, 10]"

text \<open>
  The exceptions of a run. \<open>Exception msg\<close> is an exception raised by the socket calls
  (or by encoding the request), with the text \<^verbatim>\<open>str(e)\<close>; \<open>ValueError\<close> is what unpacking a
  list of the wrong length raises; \<open>UnicodeDecodeError\<close> and \<open>UnicodeEncodeError\<close> carry
  their reason (the message of CPython also names the codec, the offending item and its
  position, which the model leaves out); \<open>StopIteration\<close> is raised by \<^verbatim>\<open>next\<close> on an
  exhausted generator.
\<close>

datatype exn =
  Exception str | ValueError | UnicodeDecodeError str | UnicodeEncodeError str | StopIteration

definition exn_str :: "exn \<Rightarrow> str" where
  "exn_str e =
     (case e of
        Exception msg \<Rightarrow> msg
      | ValueError \<Rightarrow> ascii ''not enough values to unpack (expected 2, got 1)''
      | UnicodeDecodeError reason \<Rightarrow> reason
      | UnicodeEncodeError reason \<Rightarrow> reason
      | StopIteration \<Rightarrow> [])"

subsection \<open>\<^verbatim>\<open>str.lower\<close>\<close>

text \<open>
  \<^verbatim>\<open>s.lower()\<close> maps every character of \<open>s\<close> through the Unicode lower-case mapping.
  On the ASCII range this turns \<^verbatim>\<open>A\<close>..\<^verbatim>\<open>Z\<close> into \<^verbatim>\<open>a\<close>..\<^verbatim>\<open>z\<close> and leaves every other
  character alone. The mapping of the code points from 128 on comes from the Unicode
  character database (one to three code points per character, and for capital sigma it
  depends on the neighbours); it is not part of the program, so it is a parameter
  \<open>U\<close>: \<open>U s i\<close> is the lower-case form of the non-ASCII character at index \<open>i\<close> of \<open>s\<close>.
  Every theorem below holds for every such table.
\<close>

type_synonym case_table = "str \<Rightarrow> nat \<Rightarrow> str"

definition ascii_lower :: "codepoint \<Rightarrow> codepoint" where
  "ascii_lower c = (if 65 \<le> c \<and> c \<le> 90 then c + 32 else c)"

definition str_lower :: "case_table \<Rightarrow> str \<Rightarrow> str" where
  "str_lower U s =
     concat (map (\<lambda>i. if s ! i < 128 then [ascii_lower (s ! i)] else U s i) [0..<length s])"

text \<open>The table that leaves every non-ASCII character unchanged, for concrete runs on
  ASCII input.\<close>

definition no_table :: case_table where
  "no_table s i = [s ! i]"

subsection \<open>\<^verbatim>\<open>in\<close>, \<^verbatim>\<open>str.split\<close>\<close>

text \<open>
  \<open>str_find sep s\<close> is the index of the leftmost occurrence of \<open>sep\<close> in \<open>s\<close>;
  \<^verbatim>\<open>sep in s\<close>, \<^verbatim>\<open>s.split(sep, 1)\<close> and \<^verbatim>\<open>s.split(sep)\<close> all cut at leftmost occurrences.
  The source only passes the non-empty literals \<^verbatim>\<open>'\r\n'\<close> and \<^verbatim>\<open>': '\<close> as separators
  (Python raises \<^verbatim>\<open>ValueError\<close> on an empty one; \<open>str_split\<close> returns the string whole
  there).
\<close>

fun str_find :: "str \<Rightarrow> str \<Rightarrow> nat option" where
  "str_find sep [] = (if sep = [] then Some 0 else None)"
| "str_find sep (c # s) =
     (if take (length sep) (c # s) = sep then Some 0
      else map_option Suc (str_find sep s))"

definition str_contains :: "str \<Rightarrow> str \<Rightarrow> bool" where
  "str_contains sep s = (str_find sep s \<noteq> None)"

definition str_split_max1 :: "str \<Rightarrow> str \<Rightarrow> str list" where
  "str_split_max1 sep s =
     (case str_find sep s of
        None \<Rightarrow> [s]
      | Some i \<Rightarrow> [take i s, drop (i + length sep) s])"

function str_split :: "str \<Rightarrow> str \<Rightarrow> str list" where
  "str_split sep s =
     (if sep = [] then [s]
      else case str_find sep s of
        None \<Rightarrow> [s]
      | Some i \<Rightarrow> take i s # str_split sep (drop (i + length sep) s))"
  by pat_completeness auto

termination str_split
proof (relation "measure (\<lambda>(sep, s). length s)")
  show "wf (measure (\<lambda>(sep, s). length s))" by simp
next
  fix sep s :: str and i
  assume sep: "sep \<noteq> []" and found: "str_find sep s = Some i"
  have bound: "i + length sep \<le> length s" if "str_find sep s = Some i" for s i
    using that
  proof (induction s arbitrary: i)
    case Nil
    then show ?case by (simp split: if_splits)
  next
    case (Cons c s)
    show ?case
    proof (cases "take (length sep) (c # s) = sep")
      case True
      then have "length (take (length sep) (c # s)) = length sep"
        by simp
      then have "length sep \<le> length (c # s)"
        by (simp add: min_def split: if_splits)
      with True Cons.prems show ?thesis by simp
    next
      case False
      with Cons.prems obtain j where j: "str_find sep s = Some j" "i = Suc j"
        by auto
      from Cons.IH [OF j(1)] j(2) show ?thesis by simp
    qed
  qed
  from sep bound [OF found] have "length s - (i + length sep) < length s"
    by (cases sep) auto
  then show "((sep, drop (i + length sep) s), (sep, s)) \<in> measure (\<lambda>(sep, s). length s)"
    by simp
qed

subsection \<open>\<^verbatim>\<open>bytes.decode('utf-8', errors=...)\<close>\<close>

text \<open>
  CPython's UTF-8 decoder reads one sequence at a time. \<open>utf8_next\<close> looks at the
  front of a non-empty input: \<open>Char c n\<close> is a well-formed sequence of \<open>n\<close> bytes for
  the code point \<open>c\<close>; \<open>Bad n reason\<close> is an error whose range is the first \<open>n\<close>
  bytes (an invalid start byte alone; the bytes before an invalid continuation byte;
  all that is left of a sequence cut off by the end of the data). Over-long forms,
  surrogates and code points above \<^verbatim>\<open>U+10FFFF\<close> are errors at the second byte.
  The error handler then decides: \<^verbatim>\<open>strict\<close> raises, \<^verbatim>\<open>ignore\<close> skips the range,
  \<^verbatim>\<open>replace\<close> puts \<^verbatim>\<open>U+FFFD\<close> for it; decoding goes on after the range.
\<close>

datatype errors = Strict | Ignore | Replace

datatype utf8_step = Char codepoint nat | Bad nat str

definition continuation :: "byte \<Rightarrow> bool" where
  "continuation b = (0x80 \<le> b \<and> b \<le> 0xBF)"

definition invalid_start :: str where
  "invalid_start = ascii ''invalid start byte''"

definition invalid_continuation :: str where
  "invalid_continuation = ascii ''invalid continuation byte''"

definition unexpected_end :: str where
  "unexpected_end = ascii ''unexpected end of data''"

fun utf8_next :: "byte list \<Rightarrow> utf8_step" where
  "utf8_next [] = Bad 0 unexpected_end"
| "utf8_next (b0 # bs) =
     (if b0 < 0x80 then Char (unat b0) 1
      else if b0 < 0xC2 then Bad 1 invalid_start
      else if b0 < 0xE0 then
        (case bs of
           [] \<Rightarrow> Bad 1 unexpected_end
         | b1 # _ \<Rightarrow>
             if continuation b1
             then Char ((unat b0 - 0xC0) * 64 + (unat b1 - 0x80)) 2
             else Bad 1 invalid_continuation)
      else if b0 < 0xF0 then
        (case bs of
           [] \<Rightarrow> Bad 1 unexpected_end
         | b1 # bs1 \<Rightarrow>
             if \<not> continuation b1 then Bad 1 invalid_continuation
             else if (if b1 < 0xA0 then b0 = 0xE0 else b0 = 0xED)
             then Bad 1 invalid_continuation
             else
               (case bs1 of
                  [] \<Rightarrow> Bad 2 unexpected_end
                | b2 # _ \<Rightarrow>
                    if continuation b2
                    then Char ((unat b0 - 0xE0) * 4096 + (unat b1 - 0x80) * 64
                               + (unat b2 - 0x80)) 3
                    else Bad 2 invalid_continuation))
      else if b0 < 0xF5 then
        (case bs of
           [] \<Rightarrow> Bad 1 unexpected_end
         | b1 # bs1 \<Rightarrow>
             if \<not> continuation b1 then Bad 1 invalid_continuation
             else if (if b1 < 0x90 then b0 = 0xF0 else b0 = 0xF4)
             then Bad 1 invalid_continuation
             else
               (case bs1 of
                  [] \<Rightarrow> Bad 2 unexpected_end
                | b2 # bs2 \<Rightarrow>
                    if \<not> continuation b2 then Bad 2 invalid_continuation
                    else
                      (case bs2 of
                         [] \<Rightarrow> Bad 3 unexpected_end
                       | b3 # _ \<Rightarrow>
                           if continuation b3
                           then Char ((unat b0 - 0xF0) * 262144 + (unat b1 - 0x80) * 4096
                                      + (unat b2 - 0x80) * 64 + (unat b3 - 0x80)) 4
                           else Bad 3 invalid_continuation)))
      else Bad 1 invalid_start)"

function decode_utf8 :: "errors \<Rightarrow> byte list \<Rightarrow> exn + str" where
  "decode_utf8 errors [] = Inr []"
| "decode_utf8 errors (b # bs) =
     (case utf8_next (b # bs) of
        Char c n \<Rightarrow>
          (case decode_utf8 errors (drop (n - 1) bs) of
             Inl e \<Rightarrow> Inl e
           | Inr s \<Rightarrow> Inr (c # s))
      | Bad n reason \<Rightarrow>
          (case errors of
             Strict \<Rightarrow> Inl (UnicodeDecodeError reason)
           | Ignore \<Rightarrow> decode_utf8 errors (drop (n - 1) bs)
           | Replace \<Rightarrow>
               (case decode_utf8 errors (drop (n - 1) bs) of
                  Inl e \<Rightarrow> Inl e
                | Inr s \<Rightarrow> Inr (0xFFFD # s))))"
  by pat_completeness auto

termination decode_utf8
  by (relation "measure (\<lambda>(errors, bs). length bs)") auto

subsection \<open>\<^verbatim>\<open>str.encode()\<close>\<close>

text \<open>
  The default encoding is UTF-8 with strict error handling: one to four bytes per code
  point, and a surrogate (which a \<^verbatim>\<open>str\<close> may hold) raises.
\<close>

definition encode_codepoint :: "codepoint \<Rightarrow> exn + byte list" where
  "encode_codepoint c =
     (if c < 0x80 then Inr [of_nat c]
      else if c < 0x800 then Inr [of_nat (0xC0 + c div 64), of_nat (0x80 + c mod 64)]
      else if 0xD800 \<le> c \<and> c \<le> 0xDFFF
        then Inl (UnicodeEncodeError (ascii ''surrogates not allowed''))
      else if c < 0x10000
        then Inr [of_nat (0xE0 + c div 4096), of_nat (0x80 + c div 64 mod 64),
                  of_nat (0x80 + c mod 64)]
      else Inr [of_nat (0xF0 + c div 262144 mod 8), of_nat (0x80 + c div 4096 mod 64),
                of_nat (0x80 + c div 64 mod 64), of_nat (0x80 + c mod 64)])"

fun str_encode :: "str \<Rightarrow> exn + byte list" where
  "str_encode [] = Inr []"
| "str_encode (c # s) =
     (case encode_codepoint c of
        Inl e \<Rightarrow> Inl e
      | Inr bs \<Rightarrow>
          (case str_encode s of
             Inl e \<Rightarrow> Inl e
           | Inr bs' \<Rightarrow> Inr (bs @ bs')))"

section \<open>Parsing the response headers (lines 56 to 60)\<close>

text \<open>
  \<^verbatim>\<open>
  headers = {}
  for line in response.split('\r\n'):
      if ': ' in line:
          key, value = line.split(': ', 1)
          headers[key.lower()] = value
  \<close>
  A \<^verbatim>\<open>dict\<close> keeps its keys in insertion order, and an assignment to a key that is
  present replaces the value where it stands: this is \<open>AList.update\<close>. The unpacking
  \<^verbatim>\<open>key, value = ...\<close> raises \<^verbatim>\<open>ValueError\<close> unless the list has two elements.
\<close>

type_synonym dict = "(str \<times> str) list"

definition dict_get :: "dict \<Rightarrow> str \<Rightarrow> str \<Rightarrow> str" where
  "dict_get d k dflt = (case map_of d k of None \<Rightarrow> dflt | Some v \<Rightarrow> v)"

definition header_line :: "case_table \<Rightarrow> dict \<Rightarrow> str \<Rightarrow> exn + dict" where
  "header_line U headers line =
     (if str_contains (ascii '': '') line
      then (case str_split_max1 (ascii '': '') line of
              [key, val] \<Rightarrow> Inr (AList.update (str_lower U key) val headers)
            | _ \<Rightarrow> Inl ValueError)
      else Inr headers)"

fun header_loop :: "case_table \<Rightarrow> dict \<Rightarrow> str list \<Rightarrow> exn + dict" where
  "header_loop U headers [] = Inr headers"
| "header_loop U headers (line # lines) =
     (case header_line U headers line of
        Inl e \<Rightarrow> Inl e
      | Inr headers' \<Rightarrow> header_loop U headers' lines)"

definition parse_headers :: "case_table \<Rightarrow> str \<Rightarrow> exn + dict" where
  "parse_headers U response = header_loop U [] (str_split crlf response)"

text \<open>
  The field a line declares, in the words of the specification: for a line that
  contains \<^verbatim>\<open>': '\<close>, the lower-cased text before the first occurrence and the text
  after it; nothing for a line without.
\<close>

definition header_field :: "case_table \<Rightarrow> str \<Rightarrow> (str \<times> str) option" where
  "header_field U line =
     (case str_find (ascii '': '') line of
        None \<Rightarrow> None
      | Some p \<Rightarrow> Some (str_lower U (take p line), drop (p + 2) line))"

definition store_field :: "case_table \<Rightarrow> str \<Rightarrow> dict \<Rightarrow> dict" where
  "store_field U line headers =
     (case header_field U line of
        None \<Rightarrow> headers
      | Some (k, v) \<Rightarrow> AList.update k v headers)"

section \<open>The test cases (lines 14 to 36)\<close>

text \<open>
  Each test case is a dictionary with the keys \<^verbatim>\<open>name\<close> and \<^verbatim>\<open>request\<close>; the request
  is a string built from adjacent literals, with the host interpolated.
\<close>

record testcase =
  name :: str
  request :: str

definition test_cases :: "str \<Rightarrow> testcase list" where
  "test_cases host =
     [\<lparr>name = ascii ''Both Headers'',
       request =
         ascii ''POST / HTTP/1.1'' @ crlf
         @ ascii ''Host: '' @ host @ crlf
         @ ascii ''Content-Length: 5'' @ crlf
         @ ascii ''Transfer-Encoding: chunked'' @ crlf
         @ ascii ''Connection: keep-alive'' @ crlf @ crlf
         @ ascii ''0'' @ crlf @ crlf\<rparr>,
      \<lparr>name = ascii ''TE Only'',
       request =
         ascii ''POST / HTTP/1.1'' @ crlf
         @ ascii ''Host: '' @ host @ crlf
         @ ascii ''Transfer-Encoding: chunked'' @ crlf
         @ ascii ''Connection: keep-alive'' @ crlf @ crlf
         @ ascii ''0'' @ crlf @ crlf\<rparr>]"

section \<open>The probe loop (lines 38 to 73)\<close>

text \<open>
  What the network does for one test case is an input of the model, of type
  \<open>'t outcome\<close>: either one of the statements from \<^verbatim>\<open>sock.connect\<close> to \<^verbatim>\<open>sock.recv\<close>
  raised an exception (\<open>Raised e\<close>), or \<^verbatim>\<open>recv\<close> returned bytes and the two clock
  readings differed by a time (\<open>Received raw t\<close>). Times are Python floats, of an
  abstract type \<open>'t\<close>. The socket object itself is taken as created; closing it and
  sleeping in the \<^verbatim>\<open>finally\<close> block change nothing the model holds.
\<close>

datatype 't outcome = Raised exn | Received "byte list" 't


record 't observation =
  test_name :: str
  response_time :: 't
  connection :: str
  content_length :: str

text \<open>The body of the \<^verbatim>\<open>try\<close> block: \<open>Inl e\<close> when it raised \<open>e\<close>, else the dictionary
  appended to \<^verbatim>\<open>results\<close>.\<close>

definition probe :: "case_table \<Rightarrow> testcase \<Rightarrow> 't outcome \<Rightarrow> exn + 't observation" where
  "probe U test oc =
     (case oc of
        Raised e \<Rightarrow> Inl e
      | Received raw t \<Rightarrow>
          (case decode_utf8 Ignore raw of
             Inl e \<Rightarrow> Inl e
           | Inr response \<Rightarrow>
               (case parse_headers U response of
                  Inl e \<Rightarrow> Inl e
                | Inr headers \<Rightarrow>
                    Inr \<lparr>test_name = name test,
                         response_time = t,
                         connection =
                           dict_get headers (ascii ''connection'') (ascii ''Not specified''),
                         content_length =
                           dict_get headers (ascii ''content-length'')
                             (ascii ''Not specified'')\<rparr>)))"

text \<open>
  The loop threads the lines printed so far and the list \<^verbatim>\<open>results\<close>. The \<^verbatim>\<open>except\<close>
  clause prints one line and the loop goes on.
\<close>

fun probe_loop ::
  "case_table \<Rightarrow> (testcase \<Rightarrow> 't outcome) \<Rightarrow> testcase list
     \<Rightarrow> str list \<times> 't observation list \<Rightarrow> str list \<times> 't observation list" where
  "probe_loop U net [] (printed, results) = (printed, results)"
| "probe_loop U net (test # tests) (printed, results) =
     (case probe U test (net test) of
        Inl e \<Rightarrow>
          probe_loop U net tests
            (printed @ [ascii ''Error during '' @ name test @ ascii '': '' @ exn_str e],
             results)
      | Inr r \<Rightarrow> probe_loop U net tests (printed, results @ [r]))"

section \<open>The analysis (lines 77 to 97)\<close>

text \<open>
  Float subtraction, \<^verbatim>\<open>abs\<close> and the format \<^verbatim>\<open>:.2f\<close> (two digits after the decimal
  point) are operations of the language on the abstract time type, given as a record.
\<close>

record 't float_ops =
  fsub :: "'t \<Rightarrow> 't \<Rightarrow> 't"
  fabs :: "'t \<Rightarrow> 't"
  fmt2f :: "'t \<Rightarrow> str"

text \<open>The four lines printed for one result; \<^verbatim>\<open>print\<close> is modelled by the list of the
  strings printed, one per call.\<close>

definition summary :: "'t float_ops \<Rightarrow> 't observation \<Rightarrow> str list" where
  "summary F r =
     [[10] @ ascii ''Test: '' @ test_name r,
      ascii ''Response time: '' @ fmt2f F (response_time r) @ ascii ''s'',
      ascii ''Connection header: '' @ connection r,
      ascii ''Content-Length header: '' @ content_length r]"

text \<open>\<^verbatim>\<open>next(r for r in results if r["test_name"] == n)\<close>: the first match, or
  \<^verbatim>\<open>StopIteration\<close> (no default is given).\<close>

definition next_named :: "str \<Rightarrow> 't observation list \<Rightarrow> exn + 't observation" where
  "next_named n results =
     (case filter (\<lambda>r. test_name r = n) results of
        [] \<Rightarrow> Inl StopIteration
      | r # _ \<Rightarrow> Inr r)"

definition warning :: "'t float_ops \<Rightarrow> 't observation \<Rightarrow> 't observation \<Rightarrow> str list" where
  "warning F both_headers te_only =
     [[10] @ ascii ''[!] Potential header parsing inconsistency detected:'',
      ascii ''- Server returns 'Connection: close' with both headers'',
      ascii ''- Server returns 'Connection: keep-alive' with TE only'',
      ascii ''- Response timing differs by: ''
      @ fmt2f F (fabs F (fsub F (response_time both_headers) (response_time te_only)))
      @ ascii ''s'']"

text \<open>The result is the list of lines printed and either the exception that ended the
  call or \<open>Inr ()\<close> for the normal return.\<close>

definition analyze_results ::
  "case_table \<Rightarrow> 't float_ops \<Rightarrow> 't observation list \<Rightarrow> str list \<times> (exn + unit)" where
  "analyze_results U F results =
     (let printed = concat (map (summary F) results) in
      case next_named (ascii ''Both Headers'') results of
        Inl e \<Rightarrow> (printed, Inl e)
      | Inr both_headers \<Rightarrow>
          (case next_named (ascii ''TE Only'') results of
             Inl e \<Rightarrow> (printed, Inl e)
           | Inr te_only \<Rightarrow>
               if str_lower U (connection both_headers) = ascii ''close''
                  \<and> str_lower U (connection te_only) = ascii ''keep-alive''
               then (printed @ warning F both_headers te_only, Inr ())
               else (printed, Inr ())))"

definition test_header_parsing ::
  "case_table \<Rightarrow> 't float_ops \<Rightarrow> (testcase \<Rightarrow> 't outcome) \<Rightarrow> str
     \<Rightarrow> str list \<times> (exn + unit)" where
  "test_header_parsing U F net host =
     (let (printed, results) = probe_loop U net (test_cases host) ([], []);
          (printed', r) = analyze_results U F results
      in (printed @ printed', r))"

section \<open>An instance of the float operations\<close>

text \<open>
  For runs on concrete times: every finite float is a rational number, the
  operations are exact here, and \<^verbatim>\<open>:.2f\<close> rounds the exact value to hundredths, a tie
  to the even neighbour.
\<close>

fun digits :: "nat \<Rightarrow> str" where
  "digits n = (if n < 10 then [48 + n] else digits (n div 10) @ [48 + n mod 10])"

definition round_half_even :: "rat \<Rightarrow> int" where
  "round_half_even x =
     (let f = \<lfloor>x\<rfloor>; r = x - of_int f
      in if r < 1 / 2 then f else if 1 / 2 < r then f + 1 else if even f then f else f + 1)"

definition fmt2f_exact :: "rat \<Rightarrow> str" where
  "fmt2f_exact x =
     (let n = nat (round_half_even (\<bar>x\<bar> * 100))
      in (if x < 0 then ascii ''-'' else []) @ digits (n div 100) @ ascii ''.''
         @ [48 + n mod 100 div 10, 48 + n mod 10])"

definition exact_ops :: "rat float_ops" where
  "exact_ops = \<lparr>fsub = (-), fabs = abs, fmt2f = fmt2f_exact\<rparr>"

section \<open>Vocabulary of the statements and example data\<close>

text \<open>Byte strings written as ASCII literals.\<close>

definition ascii_bytes :: "string \<Rightarrow> byte list" where
  "ascii_bytes s = map of_char s"

text \<open>A value with a leading or a trailing space, as a server leaves it that sends
  \<^verbatim>\<open>Connection:  close\<close> with two spaces after the colon.\<close>

definition padded :: "str \<Rightarrow> bool" where
  "padded s = (s \<noteq> [] \<and> (hd s = 32 \<or> last s = 32))"

text \<open>An observation with a given name, time and connection value, and a network
  where the first probe is answered and the probe named \<^verbatim>\<open>TE Only\<close> times out.\<close>

definition example_observation :: "string \<Rightarrow> rat \<Rightarrow> string \<Rightarrow> rat observation" where
  "example_observation n t c =
     \<lparr>test_name = ascii n, response_time = t, connection = ascii c,
      content_length = ascii ''Not specified''\<rparr>"

definition te_only_fails :: "testcase \<Rightarrow> rat outcome" where
  "te_only_fails test =
     (if name test = ascii ''TE Only'' then Raised (Exception (ascii ''timed out''))
      else Received
             (ascii_bytes ''HTTP/1.1 200 OK'' @ [13, 10] @ ascii_bytes ''Connection: close''
              @ [13, 10, 13, 10])
             (1 / 2))"

declare digits.simps [simp del]

section \<open>Facts about the model\<close>

subsection \<open>Header parsing\<close>

lemma header_line_store: "header_line U headers line = Inr (store_field U line headers)"
  by (simp add: header_line_def store_field_def header_field_def str_contains_def
      str_split_max1_def ascii_def split: option.splits)

lemma header_loop_fold: "header_loop U headers lines = Inr (fold (store_field U) lines headers)"
  by (induction lines arbitrary: headers) (simp_all add: header_line_store)

lemma parse_headers_fold:
  "parse_headers U response = Inr (fold (store_field U) (str_split crlf response) [])"
  by (simp add: parse_headers_def header_loop_fold)

lemma map_of_store_field:
  "map_of (store_field U line headers) k =
     (case header_field U line of
        None \<Rightarrow> map_of headers k
      | Some (k', v) \<Rightarrow> if k' = k then Some v else map_of headers k)"
  by (simp add: store_field_def update_conv' split: option.splits)

lemma map_of_fold_other:
  "\<forall>line\<in>set lines. map_option fst (header_field U line) \<noteq> Some k \<Longrightarrow>
     map_of (fold (store_field U) lines headers) k = map_of headers k"
  by (induction lines arbitrary: headers) (auto simp: map_of_store_field split: option.splits)

lemma map_of_fold_last:
  assumes "i < length lines" and "header_field U (lines ! i) = Some (k, v)"
    and "\<forall>line\<in>set (drop (Suc i) lines). map_option fst (header_field U line) \<noteq> Some k"
  shows "map_of (fold (store_field U) lines headers) k = Some v"
proof -
  have "lines = take i lines @ lines ! i # drop (Suc i) lines"
    using assms(1) by (rule id_take_nth_drop)
  then have "fold (store_field U) lines headers =
      fold (store_field U) (drop (Suc i) lines)
        (store_field U (lines ! i) (fold (store_field U) (take i lines) headers))"
    by (metis fold_append fold_simps(2) comp_apply)
  then show ?thesis
    using assms(2,3) by (simp add: map_of_fold_other map_of_store_field)
qed

lemma keys_fold_mono:
  "k \<in> fst ` set headers \<Longrightarrow> k \<in> fst ` set (fold (store_field U) lines headers)"
proof (induction lines arbitrary: headers)
  case Nil
  then show ?case by simp
next
  case (Cons line lines)
  have "k \<in> fst ` set (store_field U line headers)"
    using Cons.prems by (auto simp: store_field_def dom_update split: option.splits)
  then show ?case by (simp add: Cons.IH)
qed

lemma keys_fold_declared:
  "line \<in> set lines \<Longrightarrow> header_field U line = Some (k, v) \<Longrightarrow>
     k \<in> fst ` set (fold (store_field U) lines headers)"
proof (induction lines arbitrary: headers)
  case Nil
  then show ?case by simp
next
  case (Cons l lines)
  show ?case
  proof (cases "line = l")
    case True
    with Cons.prems have "k \<in> fst ` set (store_field U l headers)"
      by (simp add: store_field_def dom_update)
    then show ?thesis by (simp add: keys_fold_mono)
  next
    case False
    with Cons.prems Cons.IH show ?thesis by simp
  qed
qed

lemma fold_no_fields:
  "\<forall>line\<in>set lines. \<not> str_contains (ascii '': '') line \<Longrightarrow>
     fold (store_field U) lines headers = headers"
  by (induction lines) (simp_all add: store_field_def header_field_def str_contains_def)

subsection \<open>Decoding\<close>


lemma utf8_next_Char_pos: "utf8_next bs = Char c n \<Longrightarrow> 0 < n \<and> n \<le> length bs"
  by (cases bs) (auto split: if_splits list.splits)




lemma decode_strict_ignore:
  "decode_utf8 Strict bs = Inr s \<Longrightarrow> decode_utf8 Ignore bs = Inr s"
proof (induction "Strict" bs arbitrary: s rule: decode_utf8.induct)
  case 1
  then show ?case by simp
next
  case (2 b bs)
  then show ?case
    by (cases "utf8_next (b # bs)") (auto split: sum.splits)
qed

subsection \<open>Probing and analysis\<close>







lemma next_named_missing:
  "n \<notin> test_name ` set results \<Longrightarrow> next_named n results = Inl StopIteration"
proof -
  assume "n \<notin> test_name ` set results"
  then have "filter (\<lambda>r. test_name r = n) results = []"
    by (auto simp: filter_empty_conv)
  then show ?thesis by (simp add: next_named_def)
qed

lemma next_named_found:
  "n \<in> test_name ` set results \<Longrightarrow> \<exists>r. next_named n results = Inr r \<and> r \<in> set results \<and> test_name r = n"
proof -
  assume "n \<in> test_name ` set results"
  then have "filter (\<lambda>r. test_name r = n) results \<noteq> []"
    by (auto simp: filter_empty_conv)
  then obtain r rs where rs: "filter (\<lambda>r. test_name r = n) results = r # rs"
    by (cases "filter (\<lambda>r. test_name r = n) results") auto
  then have "r \<in> set (filter (\<lambda>r. test_name r = n) results)" by simp
  then have "r \<in> set results \<and> test_name r = n" by simp
  with rs show ?thesis by (simp add: next_named_def)
qed

lemma next_named_Inl: "next_named n results = Inl e \<Longrightarrow> e = StopIteration"
  by (auto simp: next_named_def split: list.splits)

lemma analyze_missing:
  "ascii ''Both Headers'' \<notin> test_name ` set results \<or> ascii ''TE Only'' \<notin> test_name ` set results \<Longrightarrow>
     analyze_results U F results = (concat (map (summary F) results), Inl StopIteration)"
  by (auto simp: analyze_results_def Let_def next_named_missing split: sum.splits
      dest: next_named_Inl)

lemma analyze_present:
  "next_named (ascii ''Both Headers'') results = Inr both_headers \<Longrightarrow>
   next_named (ascii ''TE Only'') results = Inr te_only \<Longrightarrow>
     analyze_results U F results =
       (concat (map (summary F) results)
        @ (if str_lower U (connection both_headers) = ascii ''close''
              \<and> str_lower U (connection te_only) = ascii ''keep-alive''
           then warning F both_headers te_only else []),
        Inr ())"
  by (simp add: analyze_results_def Let_def)

lemma str_lower_ascii:
  "\<forall>c\<in>set s. c < 128 \<Longrightarrow> str_lower U s = map ascii_lower s"
proof -
  assume a: "\<forall>c\<in>set s. c < 128"
  have "map (\<lambda>i. if s ! i < 128 then [ascii_lower (s ! i)] else U s i) [0..<length s]
      = map (\<lambda>i. [ascii_lower (s ! i)]) [0..<length s]"
    using a by (intro map_cong) auto
  also have "concat \<dots> = map (\<lambda>i. ascii_lower (s ! i)) [0..<length s]"
    by simp
  also have "\<dots> = map ascii_lower s"
    by (rule nth_equalityI) simp_all
  finally show ?thesis
    by (simp add: str_lower_def)
qed

text \<open>The definitions unfolded to run the parser on a concrete response.\<close>

lemmas run_defs =
  parse_headers_def ascii_def crlf_def header_line_def str_contains_def
  str_split_max1_def str_lower_def ascii_lower_def upt_rec header_field_def store_field_def
  dict_get_def

subsection \<open>Encoding, lower-casing and formatting\<close>

lemma str_encode_append:
  "str_encode (a @ b) =
     (case str_encode a of
        Inl e \<Rightarrow> Inl e
      | Inr x \<Rightarrow> (case str_encode b of Inl e \<Rightarrow> Inl e | Inr y \<Rightarrow> Inr (x @ y)))"
  by (induction a) (auto split: sum.splits)

lemmas encode_defs = ascii_def ascii_bytes_def crlf_def encode_codepoint_def

lemma str_lower_Cons_ascii:
  "c < 128 \<Longrightarrow> \<exists>rest. str_lower U (c # s) = ascii_lower c # rest"
  by (simp add: str_lower_def upt_conv_Cons del: upt_Suc)

lemma str_lower_snoc_ascii:
  "c < 128 \<Longrightarrow> \<exists>front. str_lower U (s @ [c]) = front @ [ascii_lower c]"
  by (simp add: str_lower_def)

lemma str_lower_padded:
  assumes "padded s"
  shows "str_lower U s \<noteq> ascii ''close'' \<and> str_lower U s \<noteq> ascii ''keep-alive''"
proof -
  from assms have ne: "s \<noteq> []" and ends: "hd s = 32 \<or> last s = 32"
    by (simp_all add: padded_def)
  from ends show ?thesis
  proof
    assume "hd s = 32"
    with ne obtain s' where "s = 32 # s'" by (cases s) auto
    with str_lower_Cons_ascii [of 32 U s'] obtain rest where "str_lower U s = 32 # rest"
      by (auto simp: ascii_lower_def)
    then show ?thesis by (simp add: ascii_def)
  next
    assume "last s = 32"
    with ne have "s = butlast s @ [32]" by (metis append_butlast_last_id)
    with str_lower_snoc_ascii [of 32 U "butlast s"] obtain front
      where "str_lower U s = front @ [32]"
      by (auto simp: ascii_lower_def)
    then have "last (str_lower U s) = 32" by simp
    then show ?thesis by (auto simp: ascii_def)
  qed
qed

lemma fmt_examples:
  "fmt2f_exact (1 / 2) = ascii ''0.50''" "fmt2f_exact (1 / 5) = ascii ''0.20''"
  "fmt2f_exact (3 / 10) = ascii ''0.30''"
  by code_simp+

lemma lower_examples:
  "str_lower U (ascii ''Close'') = ascii ''close''"
  "str_lower U (ascii ''KEEP-ALIVE'') = ascii ''keep-alive''"
  "str_lower U (ascii ''close'') = ascii ''close''"
  "str_lower U (ascii ''keep-alive'') = ascii ''keep-alive''"
  by (simp_all add: run_defs)

section \<open>The claims of the specification\<close>

subsection \<open>C1: a missing observation\<close>

text \<open>
  C1 says that when one of the observations named \<^verbatim>\<open>Both Headers\<close> and \<^verbatim>\<open>TE Only\<close> is
  missing, the analysis prints the summaries, emits no finding and raises nothing. The
  code looks both up with \<^verbatim>\<open>next\<close> and no default. In the run below the probe
  \<^verbatim>\<open>TE Only\<close> times out: the error line and the summary of \<^verbatim>\<open>Both Headers\<close> are
  printed, no finding is, and \<^verbatim>\<open>StopIteration\<close> leaves \<^verbatim>\<open>test_header_parsing\<close>.
\<close>

theorem missing_observation_raises:
  "test_header_parsing no_table exact_ops te_only_fails (ascii ''example.com'')
     = ([ascii ''Error during TE Only: timed out'',
         [10] @ ascii ''Test: Both Headers'',
         ascii ''Response time: 0.50s'',
         ascii ''Connection header: close'',
         ascii ''Content-Length header: Not specified''],
        Inl StopIteration)"
proof -
  have p: "probe_loop no_table te_only_fails (test_cases (ascii ''example.com'')) ([], [])
      = ([ascii ''Error during TE Only: timed out''],
         [example_observation ''Both Headers'' (1 / 2) ''close''])"
    by (simp add: test_cases_def te_only_fails_def probe_def exn_str_def ascii_bytes_def
        example_observation_def run_defs)
  have m: "ascii ''TE Only''
      \<notin> test_name ` set [example_observation ''Both Headers'' (1 / 2) ''close'']"
    by (simp add: example_observation_def ascii_def)
  have a: "analyze_results no_table exact_ops
        [example_observation ''Both Headers'' (1 / 2) ''close'']
      = (summary exact_ops (example_observation ''Both Headers'' (1 / 2) ''close''),
         Inl StopIteration)"
    using analyze_missing
      [of "[example_observation ''Both Headers'' (1 / 2) ''close'']" no_table exact_ops] m
    by simp
  have "test_header_parsing no_table exact_ops te_only_fails (ascii ''example.com'')
      = ([ascii ''Error during TE Only: timed out'']
         @ summary exact_ops (example_observation ''Both Headers'' (1 / 2) ''close''),
         Inl StopIteration)"
    by (simp add: test_header_parsing_def p a)
  then show ?thesis
    by (simp add: summary_def exact_ops_def fmt_examples example_observation_def)
      (simp add: ascii_def)
qed

subsection \<open>C2: the inconsistency rule\<close>

text \<open>
  C2 as stated fails in one part: the warning does not contain the raw connection
  values. With the values \<^verbatim>\<open>Close\<close> and \<^verbatim>\<open>KEEP-ALIVE\<close> the finding is emitted, and
  none of its four lines contains \<^verbatim>\<open>Close\<close> or \<^verbatim>\<open>KEEP-ALIVE\<close>.
\<close>

theorem raw_values_counterexample:
  "analyze_results no_table exact_ops
     [example_observation ''Both Headers'' (1 / 2) ''Close'',
      example_observation ''TE Only'' (1 / 5) ''KEEP-ALIVE'']
     = (summary exact_ops (example_observation ''Both Headers'' (1 / 2) ''Close'')
        @ summary exact_ops (example_observation ''TE Only'' (1 / 5) ''KEEP-ALIVE'')
        @ [[10] @ ascii ''[!] Potential header parsing inconsistency detected:'',
           ascii ''- Server returns 'Connection: close' with both headers'',
           ascii ''- Server returns 'Connection: keep-alive' with TE only'',
           ascii ''- Response timing differs by: 0.30s''],
        Inr ())
   \<and> map (str_contains (ascii ''Close''))
        [[10] @ ascii ''[!] Potential header parsing inconsistency detected:'',
         ascii ''- Server returns 'Connection: close' with both headers'',
         ascii ''- Server returns 'Connection: keep-alive' with TE only'',
         ascii ''- Response timing differs by: 0.30s'']
      = [False, False, False, False]
   \<and> map (str_contains (ascii ''KEEP-ALIVE''))
        [[10] @ ascii ''[!] Potential header parsing inconsistency detected:'',
         ascii ''- Server returns 'Connection: close' with both headers'',
         ascii ''- Server returns 'Connection: keep-alive' with TE only'',
         ascii ''- Response timing differs by: 0.30s'']
      = [False, False, False, False]"
proof (intro conjI)
  have n: "ascii ''Both Headers'' \<noteq> ascii ''TE Only''"
    by (simp add: ascii_def)
  show "analyze_results no_table exact_ops
     [example_observation ''Both Headers'' (1 / 2) ''Close'',
      example_observation ''TE Only'' (1 / 5) ''KEEP-ALIVE'']
     = (summary exact_ops (example_observation ''Both Headers'' (1 / 2) ''Close'')
        @ summary exact_ops (example_observation ''TE Only'' (1 / 5) ''KEEP-ALIVE'')
        @ [[10] @ ascii ''[!] Potential header parsing inconsistency detected:'',
           ascii ''- Server returns 'Connection: close' with both headers'',
           ascii ''- Server returns 'Connection: keep-alive' with TE only'',
           ascii ''- Response timing differs by: 0.30s''],
        Inr ())"
    using n
    by (simp add: analyze_results_def next_named_def warning_def Let_def
        example_observation_def lower_examples exact_ops_def fmt_examples)
      (simp add: ascii_def)
  show "map (str_contains (ascii ''Close''))
        [[10] @ ascii ''[!] Potential header parsing inconsistency detected:'',
         ascii ''- Server returns 'Connection: close' with both headers'',
         ascii ''- Server returns 'Connection: keep-alive' with TE only'',
         ascii ''- Response timing differs by: 0.30s'']
      = [False, False, False, False]"
    by code_simp
  show "map (str_contains (ascii ''KEEP-ALIVE''))
        [[10] @ ascii ''[!] Potential header parsing inconsistency detected:'',
         ascii ''- Server returns 'Connection: close' with both headers'',
         ascii ''- Server returns 'Connection: keep-alive' with TE only'',
         ascii ''- Response timing differs by: 0.30s'']
      = [False, False, False, False]"
    by code_simp
qed

text \<open>
  C2, amended: when both observations are found, the analysis returns normally and,
  after the summaries, prints the warning if and only if the lower-cased connection
  value of \<^verbatim>\<open>Both Headers\<close> is \<^verbatim>\<open>close\<close> and that of \<^verbatim>\<open>TE Only\<close> is \<^verbatim>\<open>keep-alive\<close>. The
  warning is four lines of fixed text, which name the two values in lower case, and the
  absolute difference of the two times in the format with two decimals; in every other
  combination nothing is printed after the summaries.
\<close>

theorem inconsistency_rule:
  assumes "next_named (ascii ''Both Headers'') results = Inr both_headers"
    and "next_named (ascii ''TE Only'') results = Inr te_only"
  shows "analyze_results U F results =
     (concat (map (summary F) results)
      @ (if str_lower U (connection both_headers) = ascii ''close''
            \<and> str_lower U (connection te_only) = ascii ''keep-alive''
         then [[10] @ ascii ''[!] Potential header parsing inconsistency detected:'',
               ascii ''- Server returns 'Connection: close' with both headers'',
               ascii ''- Server returns 'Connection: keep-alive' with TE only'',
               ascii ''- Response timing differs by: ''
               @ fmt2f F (fabs F (fsub F (response_time both_headers) (response_time te_only)))
               @ ascii ''s'']
         else []),
      Inr ())"
  using analyze_present [OF assms, of U F] by (simp add: warning_def)

text \<open>The rule on the scenario of the specification with the values in upper case
  and the times 0.50 and 0.20.\<close>

theorem inconsistency_rule_witness:
  "next_named (ascii ''Both Headers'')
     [example_observation ''Both Headers'' (1 / 2) ''Close'',
      example_observation ''TE Only'' (1 / 5) ''KEEP-ALIVE'']
     = Inr (example_observation ''Both Headers'' (1 / 2) ''Close'')
   \<and> next_named (ascii ''TE Only'')
     [example_observation ''Both Headers'' (1 / 2) ''Close'',
      example_observation ''TE Only'' (1 / 5) ''KEEP-ALIVE'']
     = Inr (example_observation ''TE Only'' (1 / 5) ''KEEP-ALIVE'')
   \<and> analyze_results no_table exact_ops
     [example_observation ''Both Headers'' (1 / 2) ''Close'',
      example_observation ''TE Only'' (1 / 5) ''KEEP-ALIVE'']
     = ([[10] @ ascii ''Test: Both Headers'',
         ascii ''Response time: 0.50s'',
         ascii ''Connection header: Close'',
         ascii ''Content-Length header: Not specified'',
         [10] @ ascii ''Test: TE Only'',
         ascii ''Response time: 0.20s'',
         ascii ''Connection header: KEEP-ALIVE'',
         ascii ''Content-Length header: Not specified'',
         [10] @ ascii ''[!] Potential header parsing inconsistency detected:'',
         ascii ''- Server returns 'Connection: close' with both headers'',
         ascii ''- Server returns 'Connection: keep-alive' with TE only'',
         ascii ''- Response timing differs by: 0.30s''],
        Inr ())"
proof -
  have b: "next_named (ascii ''Both Headers'')
     [example_observation ''Both Headers'' (1 / 2) ''Close'',
      example_observation ''TE Only'' (1 / 5) ''KEEP-ALIVE'']
     = Inr (example_observation ''Both Headers'' (1 / 2) ''Close'')"
    by (simp add: next_named_def example_observation_def ascii_def)
  have t: "next_named (ascii ''TE Only'')
     [example_observation ''Both Headers'' (1 / 2) ''Close'',
      example_observation ''TE Only'' (1 / 5) ''KEEP-ALIVE'']
     = Inr (example_observation ''TE Only'' (1 / 5) ''KEEP-ALIVE'')"
    by (simp add: next_named_def example_observation_def ascii_def)
  from inconsistency_rule [OF b t, of no_table exact_ops] b t show ?thesis
    by (simp add: lower_examples fmt_examples summary_def exact_ops_def
        example_observation_def)
      (simp add: ascii_def)
qed

subsection \<open>C3: duplicate header names\<close>

text \<open>
  C3 as stated fails: with two lines of the same name the dictionary does not keep the
  value of the first. The first line below declares \<^verbatim>\<open>connection\<close> with the value
  \<^verbatim>\<open>close\<close>, and the parsed dictionary maps \<^verbatim>\<open>connection\<close> to \<^verbatim>\<open>keep-alive\<close>.
\<close>

theorem duplicate_header_counterexample:
  "header_field no_table (ascii ''Connection: close'')
     = Some (ascii ''connection'', ascii ''close'')
   \<and> parse_headers no_table
        (ascii ''Connection: close'' @ crlf @ ascii ''Connection: keep-alive'' @ crlf @ crlf)
      = Inr [(ascii ''connection'', ascii ''keep-alive'')]"
  by (simp add: run_defs)

text \<open>
  C3, amended: the last line of a name wins. For every response and every name \<open>k\<close>:
  if line \<open>i\<close> declares \<open>k\<close> with the value \<open>v\<close> and no later line declares \<open>k\<close>,
  then parsing succeeds and the dictionary maps \<open>k\<close> to \<open>v\<close>, whatever the earlier
  lines declared.
\<close>

theorem last_header_wins:
  assumes "i < length (str_split crlf response)"
    and "header_field U (str_split crlf response ! i) = Some (k, v)"
    and "\<forall>line\<in>set (drop (Suc i) (str_split crlf response)).
           map_option fst (header_field U line) \<noteq> Some k"
  shows "\<exists>headers. parse_headers U response = Inr headers \<and> map_of headers k = Some v
           \<and> dict_get headers k dflt = v"
  using map_of_fold_last [OF assms, of "[]"]
  by (simp add: parse_headers_fold dict_get_def)

text \<open>Three lines, the first two of the name \<^verbatim>\<open>a\<close>: the second one, at index 1, wins.\<close>

theorem last_header_wins_witness:
  "str_split crlf (ascii ''A: 1'' @ crlf @ ascii ''a: 2'' @ crlf @ ascii ''B: 3'')
     = [ascii ''A: 1'', ascii ''a: 2'', ascii ''B: 3'']
   \<and> map (header_field no_table) [ascii ''A: 1'', ascii ''a: 2'', ascii ''B: 3'']
     = [Some (ascii ''a'', ascii ''1''), Some (ascii ''a'', ascii ''2''),
        Some (ascii ''b'', ascii ''3'')]
   \<and> (\<exists>headers.
        parse_headers no_table (ascii ''A: 1'' @ crlf @ ascii ''a: 2'' @ crlf @ ascii ''B: 3'')
          = Inr headers
        \<and> map_of headers (ascii ''a'') = Some (ascii ''2'')
        \<and> dict_get headers (ascii ''a'') (ascii ''Not specified'') = ascii ''2'')"
  using last_header_wins [of 1 "ascii ''A: 1'' @ crlf @ ascii ''a: 2'' @ crlf @ ascii ''B: 3''"
      no_table "ascii ''a''" "ascii ''2''" "ascii ''Not specified''"]
  by (simp add: run_defs)

subsection \<open>C4: decoding the response\<close>




subsection \<open>C5: the two requests\<close>

text \<open>
  C5: for every host there are exactly two test cases, \<^verbatim>\<open>Both Headers\<close> then
  \<^verbatim>\<open>TE Only\<close>; the first request is the second with the line \<^verbatim>\<open>Content-Length: 5\<close> and
  its CRLF put in after the \<^verbatim>\<open>Host\<close> line, all else equal. The same holds of the bytes
  sent, \<^verbatim>\<open>request.encode()\<close>, for every host that can be encoded. The list is a function
  of the host alone, so building it twice gives the same list.
\<close>

theorem test_cases_shape:
  "test_cases host =
     [\<lparr>name = ascii ''Both Headers'',
       request =
         (ascii ''POST / HTTP/1.1'' @ crlf @ ascii ''Host: '' @ host @ crlf)
         @ (ascii ''Content-Length: 5'' @ crlf)
         @ (ascii ''Transfer-Encoding: chunked'' @ crlf @ ascii ''Connection: keep-alive''
            @ crlf @ crlf @ ascii ''0'' @ crlf @ crlf)\<rparr>,
      \<lparr>name = ascii ''TE Only'',
       request =
         (ascii ''POST / HTTP/1.1'' @ crlf @ ascii ''Host: '' @ host @ crlf)
         @ (ascii ''Transfer-Encoding: chunked'' @ crlf @ ascii ''Connection: keep-alive''
            @ crlf @ crlf @ ascii ''0'' @ crlf @ crlf)\<rparr>]
   \<and> (str_encode host = Inr hb \<longrightarrow>
        map (\<lambda>test. str_encode (request test)) (test_cases host) =
          [Inr ((ascii_bytes ''POST / HTTP/1.1'' @ [13, 10] @ ascii_bytes ''Host: '' @ hb
                 @ [13, 10])
                @ (ascii_bytes ''Content-Length: 5'' @ [13, 10])
                @ (ascii_bytes ''Transfer-Encoding: chunked'' @ [13, 10]
                   @ ascii_bytes ''Connection: keep-alive'' @ [13, 10, 13, 10]
                   @ ascii_bytes ''0'' @ [13, 10, 13, 10])),
           Inr ((ascii_bytes ''POST / HTTP/1.1'' @ [13, 10] @ ascii_bytes ''Host: '' @ hb
                 @ [13, 10])
                @ (ascii_bytes ''Transfer-Encoding: chunked'' @ [13, 10]
                   @ ascii_bytes ''Connection: keep-alive'' @ [13, 10, 13, 10]
                   @ ascii_bytes ''0'' @ [13, 10, 13, 10]))])"
proof (intro conjI impI)
  show "test_cases host =
     [\<lparr>name = ascii ''Both Headers'',
       request =
         (ascii ''POST / HTTP/1.1'' @ crlf @ ascii ''Host: '' @ host @ crlf)
         @ (ascii ''Content-Length: 5'' @ crlf)
         @ (ascii ''Transfer-Encoding: chunked'' @ crlf @ ascii ''Connection: keep-alive''
            @ crlf @ crlf @ ascii ''0'' @ crlf @ crlf)\<rparr>,
      \<lparr>name = ascii ''TE Only'',
       request =
         (ascii ''POST / HTTP/1.1'' @ crlf @ ascii ''Host: '' @ host @ crlf)
         @ (ascii ''Transfer-Encoding: chunked'' @ crlf @ ascii ''Connection: keep-alive''
            @ crlf @ crlf @ ascii ''0'' @ crlf @ crlf)\<rparr>]"
    by (simp add: test_cases_def)
next
  assume hb: "str_encode host = Inr hb"
  define P where "P = ascii ''POST / HTTP/1.1'' @ crlf @ ascii ''Host: ''"
  define L where "L = ascii ''Content-Length: 5'' @ crlf"
  define T where "T = ascii ''Transfer-Encoding: chunked'' @ crlf
        @ ascii ''Connection: keep-alive'' @ crlf @ crlf @ ascii ''0'' @ crlf @ crlf"
  define bP where "bP = ascii_bytes ''POST / HTTP/1.1'' @ [13, 10] @ ascii_bytes ''Host: ''"
  define bL where "bL = ascii_bytes ''Content-Length: 5'' @ [13, 10]"
  define bT where "bT = ascii_bytes ''Transfer-Encoding: chunked'' @ [13, 10]
           @ ascii_bytes ''Connection: keep-alive'' @ [13, 10, 13, 10]
           @ ascii_bytes ''0'' @ [13, 10, 13, 10]"
  have pre: "str_encode P = Inr bP"
    by (simp add: P_def bP_def encode_defs)
  have cl: "str_encode L = Inr bL"
    by (simp add: L_def bL_def encode_defs)
  have post: "str_encode T = Inr bT"
    by (simp add: T_def bT_def encode_defs)
  have nl: "str_encode crlf = Inr [13, 10]"
    by (simp add: encode_defs)
  have both: "str_encode (P @ host @ crlf @ L @ T) = Inr (bP @ hb @ [13, 10] @ bL @ bT)"
    by (simp only: str_encode_append pre hb nl cl post sum.case)
  have te: "str_encode (P @ host @ crlf @ T) = Inr (bP @ hb @ [13, 10] @ bT)"
    by (simp only: str_encode_append pre hb nl post sum.case)
  from both te show "map (\<lambda>test. str_encode (request test)) (test_cases host) =
          [Inr ((ascii_bytes ''POST / HTTP/1.1'' @ [13, 10] @ ascii_bytes ''Host: '' @ hb
                 @ [13, 10])
                @ (ascii_bytes ''Content-Length: 5'' @ [13, 10])
                @ (ascii_bytes ''Transfer-Encoding: chunked'' @ [13, 10]
                   @ ascii_bytes ''Connection: keep-alive'' @ [13, 10, 13, 10]
                   @ ascii_bytes ''0'' @ [13, 10, 13, 10])),
           Inr ((ascii_bytes ''POST / HTTP/1.1'' @ [13, 10] @ ascii_bytes ''Host: '' @ hb
                 @ [13, 10])
                @ (ascii_bytes ''Transfer-Encoding: chunked'' @ [13, 10]
                   @ ascii_bytes ''Connection: keep-alive'' @ [13, 10, 13, 10]
                   @ ascii_bytes ''0'' @ [13, 10, 13, 10]))]"
    by (simp add: test_cases_def P_def L_def T_def bP_def bL_def bT_def)
qed

text \<open>The host \<^verbatim>\<open>example.com\<close>: its bytes, the two names and the two requests as
  sent.\<close>

theorem test_cases_shape_witness:
  "str_encode (ascii ''example.com'') = Inr (ascii_bytes ''example.com'')
   \<and> map name (test_cases (ascii ''example.com'')) = [ascii ''Both Headers'', ascii ''TE Only'']
   \<and> map (\<lambda>test. str_encode (request test)) (test_cases (ascii ''example.com'')) =
       [Inr (ascii_bytes ''POST / HTTP/1.1'' @ [13, 10] @ ascii_bytes ''Host: example.com''
             @ [13, 10] @ ascii_bytes ''Content-Length: 5'' @ [13, 10]
             @ ascii_bytes ''Transfer-Encoding: chunked'' @ [13, 10]
             @ ascii_bytes ''Connection: keep-alive'' @ [13, 10, 13, 10]
             @ ascii_bytes ''0'' @ [13, 10, 13, 10]),
        Inr (ascii_bytes ''POST / HTTP/1.1'' @ [13, 10] @ ascii_bytes ''Host: example.com''
             @ [13, 10]
             @ ascii_bytes ''Transfer-Encoding: chunked'' @ [13, 10]
             @ ascii_bytes ''Connection: keep-alive'' @ [13, 10, 13, 10]
             @ ascii_bytes ''0'' @ [13, 10, 13, 10])]"
proof -
  have h: "str_encode (ascii ''example.com'') = Inr (ascii_bytes ''example.com'')"
    by (simp add: encode_defs)
  from test_cases_shape [of "ascii ''example.com''" "ascii_bytes ''example.com''"] h
  show ?thesis
    by (simp add: encode_defs test_cases_def)
qed

subsection \<open>C6: header extraction\<close>

text \<open>
  C6: the loop never raises and is the fold of \<open>store_field\<close> over the lines between
  CRLFs, from the empty dictionary: a line that contains \<^verbatim>\<open>': '\<close> assigns the text after
  the first occurrence to the lower-cased text before it, and a line without is passed
  over. For the response \<^verbatim>\<open>Connection: close\r\nContent-Length: 10\r\n\r\n\<close> the
  dictionary holds exactly the two pairs of the claim.
\<close>

theorem parse_headers_fields:
  "parse_headers U response = Inr (fold (store_field U) (str_split crlf response) [])
   \<and> parse_headers U
         (ascii ''Connection: close'' @ crlf @ ascii ''Content-Length: 10'' @ crlf @ crlf)
       = Inr [(ascii ''connection'', ascii ''close''), (ascii ''content-length'', ascii ''10'')]"
proof
  show "parse_headers U response = Inr (fold (store_field U) (str_split crlf response) [])"
    by (rule parse_headers_fold)
  show "parse_headers U
         (ascii ''Connection: close'' @ crlf @ ascii ''Content-Length: 10'' @ crlf @ crlf)
       = Inr [(ascii ''connection'', ascii ''close''), (ascii ''content-length'', ascii ''10'')]"
    by (simp add: run_defs)
qed

text \<open>The same response after a status line: the lines, what each declares, and the
  dictionary.\<close>

theorem parse_headers_fields_witness:
  "str_split crlf
     (ascii ''HTTP/1.1 200 OK'' @ crlf @ ascii ''Connection: close'' @ crlf
      @ ascii ''Content-Length: 10'' @ crlf @ crlf)
     = [ascii ''HTTP/1.1 200 OK'', ascii ''Connection: close'', ascii ''Content-Length: 10'',
        [], []]
   \<and> map (header_field no_table)
       [ascii ''HTTP/1.1 200 OK'', ascii ''Connection: close'', ascii ''Content-Length: 10'',
        [], []]
     = [None, Some (ascii ''connection'', ascii ''close''),
        Some (ascii ''content-length'', ascii ''10''), None, None]
   \<and> parse_headers no_table
       (ascii ''HTTP/1.1 200 OK'' @ crlf @ ascii ''Connection: close'' @ crlf
        @ ascii ''Content-Length: 10'' @ crlf @ crlf)
     = Inr [(ascii ''connection'', ascii ''close''), (ascii ''content-length'', ascii ''10'')]"
  using parse_headers_fields [of no_table
      "ascii ''HTTP/1.1 200 OK'' @ crlf @ ascii ''Connection: close'' @ crlf
       @ ascii ''Content-Length: 10'' @ crlf @ crlf"]
  by (simp add: run_defs)

subsection \<open>C7: the results of the probe loop\<close>



subsection \<open>C8: a response without headers\<close>

text \<open>
  C8: when no line of the response contains \<^verbatim>\<open>': '\<close>, parsing returns the empty
  dictionary (and so does not raise), and the observation has \<^verbatim>\<open>Not specified\<close> in both
  fields. The dictionary holds no sentinel: the default of \<^verbatim>\<open>headers.get\<close> supplies it,
  as a lookup in the empty dictionary returns its default.
\<close>

theorem no_headers_defaults:
  assumes "\<forall>line\<in>set (str_split crlf response). \<not> str_contains (ascii '': '') line"
    and "decode_utf8 Ignore raw = Inr response"
  shows "parse_headers U response = Inr []
         \<and> dict_get [] k dflt = dflt
         \<and> probe U test (Received raw t) =
             Inr \<lparr>test_name = name test, response_time = t,
                  connection = ascii ''Not specified'',
                  content_length = ascii ''Not specified''\<rparr>"
  using assms by (simp add: probe_def parse_headers_fold fold_no_fields dict_get_def)

text \<open>The empty response: one empty line, without a separator.\<close>

theorem no_headers_defaults_witness:
  "map (str_contains (ascii '': '')) (str_split crlf []) = [False]
   \<and> decode_utf8 Ignore [] = Inr []
   \<and> parse_headers no_table [] = Inr []
   \<and> probe no_table \<lparr>name = ascii ''TE Only'', request = []\<rparr> (Received [] (1 / 2 :: rat)) =
        Inr \<lparr>test_name = ascii ''TE Only'', response_time = 1 / 2,
             connection = ascii ''Not specified'',
             content_length = ascii ''Not specified''\<rparr>"
  using no_headers_defaults [of "[]" "[]" no_table "ascii ''connection''"
      "ascii ''Not specified''" "\<lparr>name = ascii ''TE Only'', request = []\<rparr>" "1 / 2 :: rat"]
  by (simp add: run_defs)

subsection \<open>C9: no trimming of the connection value\<close>

text \<open>
  C9: the rule compares the lower-cased values and nothing else. When both observations
  are found and the lower-cased value of \<^verbatim>\<open>Both Headers\<close> is not \<^verbatim>\<open>close\<close>, or that of
  \<^verbatim>\<open>TE Only\<close> is not \<^verbatim>\<open>keep-alive\<close>, or one of the two values has a leading or a
  trailing space, then only the summaries are printed: no finding is emitted.
\<close>

theorem no_whitespace_trimming:
  assumes "next_named (ascii ''Both Headers'') results = Inr both_headers"
    and "next_named (ascii ''TE Only'') results = Inr te_only"
    and "str_lower U (connection both_headers) \<noteq> ascii ''close''
         \<or> str_lower U (connection te_only) \<noteq> ascii ''keep-alive''
         \<or> padded (connection both_headers) \<or> padded (connection te_only)"
  shows "analyze_results U F results = (concat (map (summary F) results), Inr ())"
proof -
  from assms(3) have "\<not> (str_lower U (connection both_headers) = ascii ''close''
      \<and> str_lower U (connection te_only) = ascii ''keep-alive'')"
    using str_lower_padded [of "connection both_headers" U]
      str_lower_padded [of "connection te_only" U] by blast
  with analyze_present [OF assms(1,2), of U F] show ?thesis by simp
qed

text \<open>A server that answers \<^verbatim>\<open>Connection:  close\<close>, with two spaces, to the first
  probe: the stored value is \<^verbatim>\<open> close\<close>, and no finding is emitted although the second
  value is \<^verbatim>\<open>keep-alive\<close>.\<close>

theorem no_whitespace_trimming_witness:
  "parse_headers no_table (ascii ''Connection:  close'' @ crlf @ crlf)
     = Inr [(ascii ''connection'', ascii '' close'')]
   \<and> next_named (ascii ''Both Headers'')
     [example_observation ''Both Headers'' (1 / 2) '' close'',
      example_observation ''TE Only'' (1 / 5) ''keep-alive'']
     = Inr (example_observation ''Both Headers'' (1 / 2) '' close'')
   \<and> next_named (ascii ''TE Only'')
     [example_observation ''Both Headers'' (1 / 2) '' close'',
      example_observation ''TE Only'' (1 / 5) ''keep-alive'']
     = Inr (example_observation ''TE Only'' (1 / 5) ''keep-alive'')
   \<and> padded (connection (example_observation ''Both Headers'' (1 / 2) '' close''))
   \<and> str_lower no_table (connection (example_observation ''Both Headers'' (1 / 2) '' close''))
       = ascii '' close''
   \<and> analyze_results no_table exact_ops
     [example_observation ''Both Headers'' (1 / 2) '' close'',
      example_observation ''TE Only'' (1 / 5) ''keep-alive'']
     = (summary exact_ops (example_observation ''Both Headers'' (1 / 2) '' close'')
        @ summary exact_ops (example_observation ''TE Only'' (1 / 5) ''keep-alive''),
        Inr ())"
proof -
  have h: "parse_headers no_table (ascii ''Connection:  close'' @ crlf @ crlf)
     = Inr [(ascii ''connection'', ascii '' close'')]"
    by (simp add: run_defs)
  have b: "next_named (ascii ''Both Headers'')
     [example_observation ''Both Headers'' (1 / 2) '' close'',
      example_observation ''TE Only'' (1 / 5) ''keep-alive'']
     = Inr (example_observation ''Both Headers'' (1 / 2) '' close'')"
    by (simp add: next_named_def example_observation_def ascii_def)
  have t: "next_named (ascii ''TE Only'')
     [example_observation ''Both Headers'' (1 / 2) '' close'',
      example_observation ''TE Only'' (1 / 5) ''keep-alive'']
     = Inr (example_observation ''TE Only'' (1 / 5) ''keep-alive'')"
    by (simp add: next_named_def example_observation_def ascii_def)
  have p: "padded (connection (example_observation ''Both Headers'' (1 / 2) '' close''))"
    by (simp add: padded_def example_observation_def ascii_def)
  have l: "str_lower no_table
        (connection (example_observation ''Both Headers'' (1 / 2) '' close''))
       = ascii '' close''"
    by (simp add: example_observation_def run_defs)
  from no_whitespace_trimming [OF b t, of no_table exact_ops] h p b t l show ?thesis
    by simp
qed

subsection \<open>C10: lines of the body\<close>

text \<open>
  C10: the loop runs over every line of the response and does not stop at the blank
  line. Every line that declares a field, wherever it stands, has its name among the
  keys of the dictionary; and in the response below the line \<^verbatim>\<open>note: hi\<close> of the body,
  after the blank line, gives an entry that no header declared.
\<close>

theorem body_lines_parsed:
  "(line \<in> set (str_split crlf response) \<longrightarrow> header_field U line = Some (k, v) \<longrightarrow>
      (\<exists>headers. parse_headers U response = Inr headers \<and> k \<in> fst ` set headers))
   \<and> parse_headers U
        (ascii ''HTTP/1.1 200 OK'' @ crlf @ ascii ''Connection: close'' @ crlf @ crlf
         @ ascii ''note: hi'')
      = Inr [(ascii ''connection'', ascii ''close''), (ascii ''note'', ascii ''hi'')]"
proof (intro conjI impI)
  assume "line \<in> set (str_split crlf response)" "header_field U line = Some (k, v)"
  then show "\<exists>headers. parse_headers U response = Inr headers \<and> k \<in> fst ` set headers"
    by (simp add: parse_headers_fold keys_fold_declared)
next
  show "parse_headers U
        (ascii ''HTTP/1.1 200 OK'' @ crlf @ ascii ''Connection: close'' @ crlf @ crlf
         @ ascii ''note: hi'')
      = Inr [(ascii ''connection'', ascii ''close''), (ascii ''note'', ascii ''hi'')]"
    by (simp add: run_defs)
qed

text \<open>The lines of that response: the blank line is at index 2 and the line of the
  body at index 3.\<close>

theorem body_lines_parsed_witness:
  "str_split crlf
     (ascii ''HTTP/1.1 200 OK'' @ crlf @ ascii ''Connection: close'' @ crlf @ crlf
      @ ascii ''note: hi'')
     = [ascii ''HTTP/1.1 200 OK'', ascii ''Connection: close'', [], ascii ''note: hi'']
   \<and> header_field no_table (ascii ''note: hi'') = Some (ascii ''note'', ascii ''hi'')
   \<and> (\<exists>headers.
        parse_headers no_table
          (ascii ''HTTP/1.1 200 OK'' @ crlf @ ascii ''Connection: close'' @ crlf @ crlf
           @ ascii ''note: hi'') = Inr headers
        \<and> ascii ''note'' \<in> fst ` set headers)"
  using body_lines_parsed [of "ascii ''note: hi''"
      "ascii ''HTTP/1.1 200 OK'' @ crlf @ ascii ''Connection: close'' @ crlf @ crlf
       @ ascii ''note: hi''" no_table "ascii ''note''" "ascii ''hi''"]
  by (simp add: run_defs)

end
